theory Spec2Isabelle
  imports Complex_Main "HOL-Library.Sublist"
begin

section \<open>The DDB reader of abipy/dfpt/ddb.py\<close>

text \<open>
  The theory embeds the parts of \<^verbatim>\<open>src/abipy/dfpt/ddb.py\<close> that read a DDB file
  (\<^verbatim>\<open>DdbFile._parse_header\<close>, \<^verbatim>\<open>DdbFile._read_qpoints\<close>), guess the q-mesh
  (\<^verbatim>\<open>DdbFile.guessed_ngqpt\<close>) and store the Born effective charges (\<^verbatim>\<open>Becs\<close>).
  A file is the list of its lines. Python exceptions are values of the type \<open>error\<close>;
  a function that may raise returns \<open>error + 'a\<close>, with \<open>Inl\<close> for the exception.
\<close>

subsection \<open>Exceptions\<close>

text \<open>The constructors are the Python exceptions the modelled code can raise.\<close>

datatype error =
    ValueError
  | IndexError
  | UnboundLocalError
  | NameError
  | AssertionError

subsection \<open>Floating-point values\<close>

text \<open>
  A binary64 value is modelled by the rational it denotes, or it is one of the two infinities
  or a NaN. Comparison, absolute value, minimum and \<^verbatim>\<open>rint\<close> are exact on binary64; the
  quotient \<^verbatim>\<open>1 / smalls\<close> is taken exactly, without the rounding to binary64.
  The sign of a zero is not kept: the modelled code compares zeros with \<^verbatim>\<open>== 0\<close> only.
\<close>

datatype npfloat = Fin rat | PInf | NInf | NaN

type_synonym vec3 = "npfloat \<times> npfloat \<times> npfloat"

text \<open>\<^verbatim>\<open>q[q == 0] = np.inf\<close>, on one coordinate.\<close>

definition zero_to_inf :: "npfloat \<Rightarrow> npfloat" where
  "zero_to_inf x = (if x = Fin 0 then PInf else x)"

text \<open>\<^verbatim>\<open>np.abs\<close>, on one coordinate.\<close>

fun np_abs :: "npfloat \<Rightarrow> npfloat" where
  "np_abs (Fin r) = Fin \<bar>r\<bar>"
| "np_abs PInf = PInf"
| "np_abs NInf = PInf"
| "np_abs NaN = NaN"

text \<open>The minimum of two values as \<^verbatim>\<open>np.minimum\<close> takes it: a NaN propagates.\<close>

fun np_minimum :: "npfloat \<Rightarrow> npfloat \<Rightarrow> npfloat" where
  "np_minimum NaN y = NaN"
| "np_minimum x NaN = NaN"
| "np_minimum NInf y = NInf"
| "np_minimum x NInf = NInf"
| "np_minimum PInf y = y"
| "np_minimum x PInf = x"
| "np_minimum (Fin a) (Fin b) = Fin (min a b)"

text \<open>
  \<^verbatim>\<open>.min(axis=0)\<close> along one column. The reduction has no identity: on an empty
  column NumPy raises ValueError.
\<close>

fun np_min :: "npfloat list \<Rightarrow> error + npfloat" where
  "np_min [] = Inl ValueError"
| "np_min (x # xs) = Inr (fold (\<lambda>y m. np_minimum m y) xs x)"

text \<open>\<^verbatim>\<open>smalls[smalls == 0] = 1\<close> and \<^verbatim>\<open>ngqpt[ngqpt == 0] = 1\<close>, on one coordinate.\<close>

definition zero_to_one :: "npfloat \<Rightarrow> npfloat" where
  "zero_to_one x = (if x = Fin 0 then Fin 1 else x)"

text \<open>\<^verbatim>\<open>1 / smalls\<close>, on one coordinate; a zero divisor gives an infinity in NumPy.\<close>

fun np_recip :: "npfloat \<Rightarrow> npfloat" where
  "np_recip (Fin r) = (if r = 0 then PInf else Fin (1 / r))"
| "np_recip PInf = Fin 0"
| "np_recip NInf = Fin 0"
| "np_recip NaN = NaN"

text \<open>\<^verbatim>\<open>np.rint\<close>: the nearest integer, a tie going to the even neighbour.\<close>

definition rint_rat :: "rat \<Rightarrow> int" where
  "rint_rat x =
     (let f = \<lfloor>x\<rfloor>; d = x - of_int f
      in if d < 1 / 2 then f
         else if 1 / 2 < d then f + 1
         else if even f then f else f + 1)"

fun np_rint :: "npfloat \<Rightarrow> npfloat" where
  "np_rint (Fin r) = Fin (of_int (rint_rat r))"
| "np_rint x = x"

text \<open>
  \<^verbatim>\<open>np.array(ngqpt, dtype=np.int)\<close>, on one coordinate. \<^verbatim>\<open>np.int\<close> is the C
  \<^verbatim>\<open>long\<close>, 64 bits wide on Linux x86-64. The conversion never raises: it truncates
  towards zero, and for a NaN, an infinity or a value outside the range of the type the
  processor's conversion stores the smallest integer of the type.
\<close>

definition int_min :: int where
  "int_min = - (2 ^ 63)"

definition int_max :: int where
  "int_max = 2 ^ 63 - 1"

definition trunc_rat :: "rat \<Rightarrow> int" where
  "trunc_rat r = (if 0 \<le> r then \<lfloor>r\<rfloor> else \<lceil>r\<rceil>)"

fun np_to_int :: "npfloat \<Rightarrow> int" where
  "np_to_int (Fin r) =
     (let n = trunc_rat r
      in if int_min \<le> n \<and> n \<le> int_max then n else int_min)"
| "np_to_int x = int_min"

subsection \<open>Mesh inference: DdbFile.guessed_ngqpt\<close>

text \<open>
  \<^verbatim>\<open>self.qpoints\<close> is the list of the q-points' \<^verbatim>\<open>frac_coords\<close> and
  \<^verbatim>\<open>self.structure.spacegroup\<close> the list of the symmetry operations. The method
  \<^verbatim>\<open>rotate_k\<close> of an operation lives in \<^verbatim>\<open>abipy/core/symmetries.py\<close>, which is not
  among the sources: it is the parameter \<open>rotate_k\<close>.

  The first loop fills \<^verbatim>\<open>all_qpoints\<close>, one row for every q-point and operation, the
  operations varying fastest.
\<close>

definition all_qpoints :: "('op \<Rightarrow> vec3 \<Rightarrow> vec3) \<Rightarrow> vec3 list \<Rightarrow> 'op list \<Rightarrow> vec3 list" where
  "all_qpoints rotate_k qpoints spacegroup =
     concat (map (\<lambda>qpoint. map (\<lambda>op. rotate_k op qpoint) spacegroup) qpoints)"

definition map_vec3 :: "(npfloat \<Rightarrow> npfloat) \<Rightarrow> vec3 \<Rightarrow> vec3" where
  "map_vec3 f q = (case q of (x, y, z) \<Rightarrow> (f x, f y, f z))"

text \<open>\<^verbatim>\<open>np.abs(all_qpoints).min(axis=0)\<close>: the three column minima.\<close>

definition min_axis0 :: "vec3 list \<Rightarrow> error + vec3" where
  "min_axis0 rows =
     (case np_min (map fst rows) of
        Inl e \<Rightarrow> Inl e
      | Inr x \<Rightarrow>
          (case np_min (map (fst \<circ> snd) rows) of
             Inl e \<Rightarrow> Inl e
           | Inr y \<Rightarrow>
               (case np_min (map (snd \<circ> snd) rows) of
                  Inl e \<Rightarrow> Inl e
                | Inr z \<Rightarrow> Inr (x, y, z))))"

definition to_int_vec3 :: "vec3 \<Rightarrow> int \<times> int \<times> int" where
  "to_int_vec3 q = (case q of (x, y, z) \<Rightarrow> (np_to_int x, np_to_int y, np_to_int z))"

text \<open>
  The values the body of \<^verbatim>\<open>guessed_ngqpt\<close> computes, statement by statement:
  \<^verbatim>\<open>all_qpoints\<close> after the first loop and after the zeros are replaced, the column
  minima, \<^verbatim>\<open>smalls\<close> after its zeros are replaced, \<^verbatim>\<open>np.rint(1 / smalls)\<close>,
  \<^verbatim>\<open>ngqpt\<close> after its zeros are replaced, and the integer array returned.
\<close>

record ngqpt_steps =
  rotated_rows :: "vec3 list"
  replaced_rows :: "vec3 list"
  col_minima :: vec3
  smalls_guarded :: vec3
  rounded_inverse :: vec3
  ngqpt_guarded :: vec3
  mesh_int :: "int \<times> int \<times> int"

definition guessed_ngqpt_steps ::
  "('op \<Rightarrow> vec3 \<Rightarrow> vec3) \<Rightarrow> vec3 list \<Rightarrow> 'op list \<Rightarrow> error + ngqpt_steps" where
  "guessed_ngqpt_steps rotate_k qpoints spacegroup =
     (let rotated = all_qpoints rotate_k qpoints spacegroup;
          replaced = map (map_vec3 zero_to_inf) rotated
      in case min_axis0 (map (map_vec3 np_abs) replaced) of
           Inl e \<Rightarrow> Inl e
         | Inr minima \<Rightarrow>
             (let smalls = map_vec3 zero_to_one minima;
                  rounded = map_vec3 (np_rint \<circ> np_recip) smalls;
                  ngqpt = map_vec3 zero_to_one rounded
              in Inr \<lparr>rotated_rows = rotated, replaced_rows = replaced,
                       col_minima = minima, smalls_guarded = smalls,
                       rounded_inverse = rounded, ngqpt_guarded = ngqpt,
                       mesh_int = to_int_vec3 ngqpt\<rparr>))"

text \<open>\<^verbatim>\<open>guessed_ngqpt\<close>: the integer array of the last statement.\<close>

definition guessed_ngqpt ::
  "('op \<Rightarrow> vec3 \<Rightarrow> vec3) \<Rightarrow> vec3 list \<Rightarrow> 'op list \<Rightarrow> error + int \<times> int \<times> int" where
  "guessed_ngqpt rotate_k qpoints spacegroup =
     (case guessed_ngqpt_steps rotate_k qpoints spacegroup of
        Inl e \<Rightarrow> Inl e
      | Inr steps \<Rightarrow> Inr (mesh_int steps))"

text \<open>
  The sum of two floating-point values and the product of an integer with one, as the
  matrix-vector product below needs them: opposite infinities add to a NaN, and zero times
  an infinity is a NaN.
\<close>

fun np_add :: "npfloat \<Rightarrow> npfloat \<Rightarrow> npfloat" where
  "np_add NaN y = NaN"
| "np_add x NaN = NaN"
| "np_add PInf NInf = NaN"
| "np_add NInf PInf = NaN"
| "np_add PInf y = PInf"
| "np_add x PInf = PInf"
| "np_add NInf y = NInf"
| "np_add x NInf = NInf"
| "np_add (Fin a) (Fin b) = Fin (a + b)"

fun np_scale :: "int \<Rightarrow> npfloat \<Rightarrow> npfloat" where
  "np_scale k (Fin r) = Fin (of_int k * r)"
| "np_scale k NaN = NaN"
| "np_scale k PInf = (if k = 0 then NaN else if 0 < k then PInf else NInf)"
| "np_scale k NInf = (if k = 0 then NaN else if 0 < k then NInf else PInf)"

type_synonym symrel = "(int \<times> int \<times> int) \<times> (int \<times> int \<times> int) \<times> (int \<times> int \<times> int)"

definition dot3 :: "int \<times> int \<times> int \<Rightarrow> vec3 \<Rightarrow> npfloat" where
  "dot3 row q =
     (case row of (a, b, c) \<Rightarrow>
        (case q of (x, y, z) \<Rightarrow> np_add (np_add (np_scale a x) (np_scale b y)) (np_scale c z)))"

text \<open>
  Modelled from the spec: \<^verbatim>\<open>rotate_k\<close> of \<^verbatim>\<open>abipy/core/symmetries.py\<close> is not under
  \<^verbatim>\<open>src/\<close>. The spec has the symmetry rotation, a 3 by 3 integer matrix, applied to the
  q-point without wrapping the result into the unit cell: the matrix-vector product, in
  floating-point arithmetic. It is an instance of the parameter \<open>rotate_k\<close>, used where
  the mesh inference is run on concrete operations.
\<close>

definition rotate_k_spec :: "symrel \<Rightarrow> vec3 \<Rightarrow> vec3" where
  "rotate_k_spec rot q = (case rot of (r1, r2, r3) \<Rightarrow> (dot3 r1 q, dot3 r2 q, dot3 r3 q))"

definition identity_rot :: symrel where
  "identity_rot = ((1, 0, 0), (0, 1, 0), (0, 0, 1))"

subsection \<open>Strings\<close>

text \<open>
  The lines are byte strings. \<^verbatim>\<open>str.strip()\<close> and \<^verbatim>\<open>str.split()\<close> without an
  argument treat the six ASCII characters space, tab, line feed, vertical tab, form feed and
  carriage return as whitespace.
\<close>

definition isspace :: "char \<Rightarrow> bool" where
  "isspace c \<longleftrightarrow>
     c = CHR '' '' \<or> c = CHR 0x09 \<or> c = CHR 0x0A \<or> c = CHR 0x0B \<or> c = CHR 0x0C \<or> c = CHR 0x0D"

definition strip :: "string \<Rightarrow> string" where
  "strip s = rev (dropWhile isspace (rev (dropWhile isspace s)))"

text \<open>
  \<^verbatim>\<open>s.split()\<close>: the maximal runs of characters that are not whitespace. \<open>cur\<close> is
  the run being read.
\<close>

fun split_aux :: "string \<Rightarrow> string \<Rightarrow> string list" where
  "split_aux cur [] = (if cur = [] then [] else [cur])"
| "split_aux cur (c # cs) =
     (if isspace c then (if cur = [] then split_aux [] cs else cur # split_aux [] cs)
      else split_aux (cur @ [c]) cs)"

definition split :: "string \<Rightarrow> string list" where
  "split s = split_aux [] s"

text \<open>\<^verbatim>\<open>s.startswith(p)\<close>.\<close>

definition startswith :: "string \<Rightarrow> string \<Rightarrow> bool" where
  "startswith s p \<longleftrightarrow> take (length p) s = p"

text \<open>\<^verbatim>\<open>sub in s\<close>, for strings.\<close>

fun contains :: "string \<Rightarrow> string \<Rightarrow> bool" where
  "contains sub [] \<longleftrightarrow> sub = []"
| "contains sub (c # cs) \<longleftrightarrow> startswith (c # cs) sub \<or> contains sub cs"

text \<open>
  \<^verbatim>\<open>s.replace(old, new)\<close> for a pattern \<open>old\<close> that is not empty, as at every call in
  the file: the occurrences are replaced from the left, without overlap.
\<close>

fun replace :: "string \<Rightarrow> string \<Rightarrow> string \<Rightarrow> string" where
  "replace old new [] = []"
| "replace old new (c # cs) =
     (if old \<noteq> [] \<and> startswith (c # cs) old
      then new @ replace old new (drop (length old - 1) cs)
      else c # replace old new cs)"

subsection \<open>Numbers read from text\<close>

text \<open>
  The builtins \<^verbatim>\<open>int\<close> and \<^verbatim>\<open>float\<close> are the parameters \<open>pint\<close> and \<open>pfloat\<close> of the
  parsers below: a function from a token to the number read, \<open>None\<close> where the builtin
  raises ValueError. \<open>dec_int\<close> and \<open>dec_float\<close> are the two builtins on decimal
  literals, used where a parser is run on a concrete file: an optional sign and digits for
  \<open>dec_int\<close>; an optional sign, digits with an optional decimal point and an optional
  exponent, or one of \<^verbatim>\<open>inf\<close>, \<^verbatim>\<open>infinity\<close>, \<^verbatim>\<open>nan\<close> for \<open>dec_float\<close>. The value of a
  literal is its decimal value.
\<close>

datatype pynum = IntV int | FloatV npfloat

definition digit_of :: "char \<Rightarrow> int option" where
  "digit_of c = map_of (zip ''0123456789'' [0, 1, 2, 3, 4, 5, 6, 7, 8, 9]) c"

fun digits_val :: "int \<Rightarrow> string \<Rightarrow> int option" where
  "digits_val acc [] = Some acc"
| "digits_val acc (c # cs) =
     (case digit_of c of None \<Rightarrow> None | Some d \<Rightarrow> digits_val (10 * acc + d) cs)"

definition int_of_digits :: "string \<Rightarrow> int option" where
  "int_of_digits s = (if s = [] then None else digits_val 0 s)"

definition dec_int :: "string \<Rightarrow> int option" where
  "dec_int s =
     (case s of
        [] \<Rightarrow> None
      | c # cs \<Rightarrow>
          if c = CHR ''-'' then map_option uminus (int_of_digits cs)
          else if c = CHR ''+'' then int_of_digits cs
          else int_of_digits s)"

definition lower :: "char \<Rightarrow> char" where
  "lower c =
     (if c = CHR ''I'' then CHR ''i'' else if c = CHR ''N'' then CHR ''n''
      else if c = CHR ''F'' then CHR ''f'' else if c = CHR ''T'' then CHR ''t''
      else if c = CHR ''Y'' then CHR ''y'' else if c = CHR ''A'' then CHR ''a''
      else c)"

definition pow10 :: "int \<Rightarrow> rat" where
  "pow10 e = (if 0 \<le> e then 10 ^ nat e else 1 / 10 ^ nat (- e))"

definition is_exp_mark :: "char \<Rightarrow> bool" where
  "is_exp_mark c \<longleftrightarrow> c = CHR ''e'' \<or> c = CHR ''E''"

definition dec_unsigned :: "string \<Rightarrow> rat option" where
  "dec_unsigned body =
     (let mant = takeWhile (\<lambda>c. \<not> is_exp_mark c) body;
          rest = dropWhile (\<lambda>c. \<not> is_exp_mark c) body;
          ip = takeWhile (\<lambda>c. c \<noteq> CHR ''.'') mant;
          fr = dropWhile (\<lambda>c. c \<noteq> CHR ''.'') mant;
          fp = (if fr = [] then [] else tl fr)
      in case (if rest = [] then Some 0 else dec_int (tl rest)) of
           None \<Rightarrow> None
         | Some e \<Rightarrow>
             (case int_of_digits (ip @ fp) of
                None \<Rightarrow> None
              | Some n \<Rightarrow> Some (of_int n / 10 ^ length fp * pow10 e)))"

definition dec_float :: "string \<Rightarrow> npfloat option" where
  "dec_float s =
     (let neg = (s \<noteq> [] \<and> hd s = CHR ''-'');
          body = (if s \<noteq> [] \<and> (hd s = CHR ''-'' \<or> hd s = CHR ''+'') then tl s else s);
          word = map lower body
      in if word = ''inf'' \<or> word = ''infinity'' then Some (if neg then NInf else PInf)
         else if word = ''nan'' then Some NaN
         else map_option (\<lambda>r. Fin (if neg then - r else r)) (dec_unsigned body))"

subsection \<open>The q-point extractor: DdbFile._read_qpoints\<close>

text \<open>
  The first loop of \<^verbatim>\<open>_read_qpoints\<close>: the state is the pair of \<^verbatim>\<open>tokens\<close> and
  \<^verbatim>\<open>seen\<close>.
\<close>

definition read_qpoints_scan :: "string list \<Rightarrow> string list \<times> string set" where
  "read_qpoints_scan lines =
     fold (\<lambda>line (tokens, seen).
             let line = strip line
             in if startswith line ''qpt'' \<and> line \<notin> seen
                then (tokens @ [replace ''qpt'' '''' line], insert line seen)
                else (tokens, seen))
          lines ([], {})"

text \<open>
  The body of the second loop, for one element of \<^verbatim>\<open>tokens\<close>: the q-point
  \<^verbatim>\<open>nums[:3]\<close> and the weight \<^verbatim>\<open>nums[3]\<close>. \<^verbatim>\<open>float\<close> raises ValueError on a token
  that is not a number, \<^verbatim>\<open>nums[3]\<close> raises IndexError when there are fewer than four numbers.
\<close>

definition parse_qpt :: "(string \<Rightarrow> npfloat option) \<Rightarrow> string \<Rightarrow> error + vec3 \<times> npfloat" where
  "parse_qpt pfloat tok =
     (case those (map pfloat (split tok)) of
        None \<Rightarrow> Inl ValueError
      | Some nums \<Rightarrow>
          (case nums of
             x # y # z # w # _ \<Rightarrow> Inr ((x, y, z), w)
           | _ \<Rightarrow> Inl IndexError))"

fun read_qpoints_loop ::
  "(string \<Rightarrow> npfloat option) \<Rightarrow> string list \<Rightarrow> error + (vec3 \<times> npfloat) list" where
  "read_qpoints_loop pfloat [] = Inr []"
| "read_qpoints_loop pfloat (tok # toks) =
     (case parse_qpt pfloat tok of
        Inl e \<Rightarrow> Inl e
      | Inr qw \<Rightarrow>
          (case read_qpoints_loop pfloat toks of
             Inl e \<Rightarrow> Inl e
           | Inr qws \<Rightarrow> Inr (qw # qws)))"

text \<open>
  \<^verbatim>\<open>_read_qpoints\<close>: the weights are dropped; every row has three numbers, so the final
  \<^verbatim>\<open>np.reshape(qpoints, (-1,3))\<close> keeps the rows as they are.
\<close>

definition read_qpoints :: "(string \<Rightarrow> npfloat option) \<Rightarrow> string list \<Rightarrow> error + vec3 list" where
  "read_qpoints pfloat lines =
     (case read_qpoints_loop pfloat (fst (read_qpoints_scan lines)) of
        Inl e \<Rightarrow> Inl e
      | Inr qws \<Rightarrow> Inr (map fst qws))"

text \<open>
  The words of the spec for the order of the q-points: every record once, at the place of
  its first occurrence.
\<close>

definition first_seen :: "'a list \<Rightarrow> 'a list" where
  "first_seen xs = rev (remdups (rev xs))"

subsection \<open>The header parser: DdbFile._parse_header\<close>

text \<open>
  \<^verbatim>\<open>keyvals\<close> is the list of the keys with the values read so far. The code is Python 2:
  \<^verbatim>\<open>map\<close> returns a list, built before \<^verbatim>\<open>extend\<close> or \<^verbatim>\<open>append\<close> is called.
\<close>

type_synonym keyvals = "(string \<times> pynum list) list"

text \<open>
  \<^verbatim>\<open>map(parse, tokens)\<close> with \<^verbatim>\<open>parse = float if "." in tok0 else int\<close>: \<open>None\<close>
  where a conversion raises ValueError.
\<close>

definition parse_tokens ::
  "(string \<Rightarrow> int option) \<Rightarrow> (string \<Rightarrow> npfloat option) \<Rightarrow> string \<Rightarrow> string list
     \<Rightarrow> pynum list option" where
  "parse_tokens pint pfloat tok0 tokens =
     (if CHR ''.'' \<in> set tok0 then those (map (map_option FloatV \<circ> pfloat) tokens)
      else those (map (map_option IntV \<circ> pint) tokens))"

text \<open>
  The \<^verbatim>\<open>except ValueError\<close> branch (lines 98 to 101): the first token is a new key.
  \<^verbatim>\<open>tokens[0]\<close> raises IndexError when the key stands alone; a ValueError of a conversion
  is raised inside the handler and leaves the function.
\<close>

definition new_key ::
  "(string \<Rightarrow> int option) \<Rightarrow> (string \<Rightarrow> npfloat option) \<Rightarrow> keyvals \<Rightarrow> string list
     \<Rightarrow> error + keyvals" where
  "new_key pint pfloat keyvals tokens =
     (case tokens of
        [] \<Rightarrow> Inl IndexError
      | key # tokens \<Rightarrow>
          (case tokens of
             [] \<Rightarrow> Inl IndexError
           | tok0 # _ \<Rightarrow>
               (case parse_tokens pint pfloat tok0 tokens of
                  None \<Rightarrow> Inl ValueError
                | Some vals \<Rightarrow> Inr (keyvals @ [(key, vals)]))))"

text \<open>
  The body of \<^verbatim>\<open>if i >= 6\<close> (lines 90 to 101). In the \<^verbatim>\<open>try\<close> block a ValueError,
  of \<^verbatim>\<open>float(tokens[0])\<close> or of a conversion in \<^verbatim>\<open>map\<close>, goes to the handler; the
  IndexError of \<^verbatim>\<open>keyvals[-1]\<close> on an empty list is raised before the conversions and is
  not caught.
\<close>

definition header_line ::
  "(string \<Rightarrow> int option) \<Rightarrow> (string \<Rightarrow> npfloat option) \<Rightarrow> keyvals \<Rightarrow> string
     \<Rightarrow> error + keyvals" where
  "header_line pint pfloat keyvals line =
     (let line = replace ''D-'' ''E-'' (replace ''D+'' ''E+'' line);
          tokens = split line
      in case tokens of
           [] \<Rightarrow> Inl IndexError
         | tok0 # _ \<Rightarrow>
             (case pfloat tok0 of
                None \<Rightarrow> new_key pint pfloat keyvals tokens
              | Some _ \<Rightarrow>
                  if keyvals = [] then Inl IndexError
                  else (case parse_tokens pint pfloat tok0 tokens of
                          None \<Rightarrow> new_key pint pfloat keyvals tokens
                        | Some vals \<Rightarrow>
                            Inr (butlast keyvals @
                                 [(fst (last keyvals), snd (last keyvals) @ vals)]))))"

text \<open>
  \<^verbatim>\<open>version = int(line.split()[-1])\<close>, run when the line contains \<^verbatim>\<open>Version\<close>.
\<close>

definition read_version :: "(string \<Rightarrow> int option) \<Rightarrow> string \<Rightarrow> error + int" where
  "read_version pint line =
     (case split line of
        [] \<Rightarrow> Inl IndexError
      | toks \<Rightarrow> (case pint (last toks) of None \<Rightarrow> Inl ValueError | Some v \<Rightarrow> Inr v))"

definition psp_section :: "string \<Rightarrow> bool" where
  "psp_section line \<longleftrightarrow>
     line = ''Description of the potentials (KB energies)'' \<or>
     line = ''No information on the potentials yet''"

text \<open>
  The loop over the lines (lines 75 to 101), \<open>i\<close> the index of \<^verbatim>\<open>enumerate\<close>. The state
  is \<^verbatim>\<open>keyvals\<close> and \<^verbatim>\<open>version\<close>, which is \<open>None\<close> as long as the local variable is
  not bound. \<^verbatim>\<open>break\<close> returns the state.
\<close>

fun header_loop ::
  "(string \<Rightarrow> int option) \<Rightarrow> (string \<Rightarrow> npfloat option) \<Rightarrow> nat \<Rightarrow> string list
     \<Rightarrow> keyvals \<times> int option \<Rightarrow> error + keyvals \<times> int option" where
  "header_loop pint pfloat i [] st = Inr st"
| "header_loop pint pfloat i (raw # rest) (keyvals, version) =
     (let line = strip raw
      in if line = [] then header_loop pint pfloat (Suc i) rest (keyvals, version)
         else
           (case (if contains ''Version'' line then map_sum id Some (read_version pint line)
                  else Inr version) of
              Inl e \<Rightarrow> Inl e
            | Inr version \<Rightarrow>
                if psp_section line then Inr (keyvals, version)
                else if 6 \<le> i then
                  (case header_line pint pfloat keyvals line of
                     Inl e \<Rightarrow> Inl e
                   | Inr keyvals \<Rightarrow> header_loop pint pfloat (Suc i) rest (keyvals, version))
                else header_loop pint pfloat (Suc i) rest (keyvals, version)))"

text \<open>
  The values of the header: a number, or a list of numbers.
\<close>

datatype hval = Scalar pynum | Array "pynum list"

text \<open>
  \<^verbatim>\<open>_parse_header\<close> up to line 106: the loop, then the dictionary \<^verbatim>\<open>h\<close> with the
  version and, for every key in turn, its value or its list of values. Reading the unbound
  local \<^verbatim>\<open>version\<close> raises UnboundLocalError. The reshaping of six of the entries into
  NumPy arrays (lines 108 to 124) follows and is not part of the model.
\<close>

definition store_key :: "string \<times> pynum list \<Rightarrow> (string \<rightharpoonup> hval) \<Rightarrow> (string \<rightharpoonup> hval)" where
  "store_key kv h =
     (case kv of (key, value) \<Rightarrow>
        h(key \<mapsto> (case value of [v] \<Rightarrow> Scalar v | _ \<Rightarrow> Array value)))"

definition parse_header ::
  "(string \<Rightarrow> int option) \<Rightarrow> (string \<Rightarrow> npfloat option) \<Rightarrow> string list
     \<Rightarrow> error + (string \<rightharpoonup> hval)" where
  "parse_header pint pfloat lines =
     (case header_loop pint pfloat 0 lines ([], None) of
        Inl e \<Rightarrow> Inl e
      | Inr (keyvals, version) \<Rightarrow>
          (case version of
             None \<Rightarrow> Inl UnboundLocalError
           | Some v \<Rightarrow> Inr (fold store_key keyvals [''version'' \<mapsto> Scalar (IntV v)])))"

subsection \<open>Born effective charges: Becs\<close>

type_synonym 'a mat3 = "('a \<times> 'a \<times> 'a) \<times> ('a \<times> 'a \<times> 'a) \<times> ('a \<times> 'a \<times> 'a)"

text \<open>\<^verbatim>\<open>mat.T\<close> of a 3 by 3 array.\<close>

definition mat_T :: "'a mat3 \<Rightarrow> 'a mat3" where
  "mat_T m =
     (case m of ((a, b, c), (d, e, f), (g, h, i)) \<Rightarrow> ((a, d, g), (b, e, h), (c, f, i)))"

text \<open>
  An object of the class: \<^verbatim>\<open>self._structure\<close>, the list of the sites, and the array
  \<^verbatim>\<open>self.becs\<close>. \<^verbatim>\<open>np.empty\<close> does not initialise the array: a cell is \<open>None\<close> until
  it is written.
\<close>

record ('a, 's) Becs =
  Becs_structure :: "'s list"
  becs :: "'a mat3 option list"

text \<open>
  The loop of \<^verbatim>\<open>__init__\<close> (lines 402 to 405), \<open>i\<close> the index of \<^verbatim>\<open>enumerate\<close>;
  \<^verbatim>\<open>becs_arr[i]\<close> is the element \<^verbatim>\<open>bec\<close> of the iteration. Writing a row the array does
  not have raises IndexError.
\<close>

fun becs_fill ::
  "string \<Rightarrow> nat \<Rightarrow> 'a mat3 list \<Rightarrow> 'a mat3 option list \<Rightarrow> error + 'a mat3 option list" where
  "becs_fill order i [] arr = Inr arr"
| "becs_fill order i (bec # rest) arr =
     (let mat = bec;
          mat = (if order = ''f'' then mat_T mat else mat)
      in if i < length arr then becs_fill order (Suc i) rest (arr[i := Some mat])
         else Inl IndexError)"

text \<open>
  \<^verbatim>\<open>Becs.__init__(becs_arr, structure, order)\<close>; the \<^verbatim>\<open>assert\<close> raises AssertionError.
  \<^verbatim>\<open>becs_arr\<close> is the array read from the file of anaddb, one 3 by 3 block for every atom.
\<close>

definition Becs_init :: "'a mat3 list \<Rightarrow> 's list \<Rightarrow> string \<Rightarrow> error + ('a, 's) Becs" where
  "Becs_init becs_arr structure order =
     (if length becs_arr \<noteq> length structure then Inl AssertionError
      else (case becs_fill order 0 becs_arr (replicate (length structure) None) of
              Inl e \<Rightarrow> Inl e
            | Inr arr \<Rightarrow> Inr \<lparr>Becs_structure = structure, becs = arr\<rparr>))"

text \<open>\<^verbatim>\<open>self.becs.sum(axis=0)\<close>: the sum of the blocks, entry by entry.\<close>

definition vec_add :: "'a::comm_monoid_add \<times> 'a \<times> 'a \<Rightarrow> 'a \<times> 'a \<times> 'a \<Rightarrow> 'a \<times> 'a \<times> 'a" where
  "vec_add u v = (case u of (a, b, c) \<Rightarrow> (case v of (x, y, z) \<Rightarrow> (a + x, b + y, c + z)))"

definition mat_add :: "'a::comm_monoid_add mat3 \<Rightarrow> 'a mat3 \<Rightarrow> 'a mat3" where
  "mat_add m n =
     (case m of (r1, r2, r3) \<Rightarrow>
        (case n of (s1, s2, s3) \<Rightarrow> (vec_add r1 s1, vec_add r2 s2, vec_add r3 s3)))"

definition mat_zero :: "'a::comm_monoid_add mat3" where
  "mat_zero = ((0, 0, 0), (0, 0, 0), (0, 0, 0))"

definition sum_axis0 :: "'a::comm_monoid_add mat3 option list \<Rightarrow> 'a mat3 option" where
  "sum_axis0 arr = map_option (\<lambda>ms. fold (\<lambda>m acc. mat_add acc m) ms mat_zero) (those arr)"

text \<open>
  The names of the module \<^verbatim>\<open>abipy/dfpt/ddb.py\<close>: its imports, \<^verbatim>\<open>logger\<close> and its
  three classes. A name is looked up among the local variables, then in the module (no
  builtin is called \<^verbatim>\<open>becs_atomsum\<close> or \<^verbatim>\<open>bec_atomsum\<close>); a name that is nowhere
  raises NameError.
\<close>

datatype 'a pyobj = Tensor "'a mat3 option" | Text string | Global string

definition module_names :: "string list" where
  "module_names =
     [''print_function'', ''division'', ''unicode_literals'', ''os'', ''tempfile'', ''np'',
      ''AttrDict'', ''lazy_property'', ''AnaddbTask'', ''TaskManager'', ''TextFile'',
      ''Has_Structure'', ''SpaceGroup'', ''Structure'', ''KpointList'', ''Tensor'',
      ''ETSF_Reader'', ''AnaddbInput'', ''logging'', ''logger'', ''TaskException'',
      ''DdbFile'', ''Becs'']"

definition load_name :: "(string \<rightharpoonup> 'a pyobj) \<Rightarrow> string \<Rightarrow> error + 'a pyobj" where
  "load_name locals name =
     (case locals name of
        Some v \<Rightarrow> Inr v
      | None \<Rightarrow> if name \<in> set module_names then Inr (Global name) else Inl NameError)"

text \<open>
  \<^verbatim>\<open>Becs.check_sumrule\<close>: the result is the list of the objects printed. The first
  statement binds \<^verbatim>\<open>becs_atomsum\<close>, the last one prints \<^verbatim>\<open>bec_atomsum\<close>.
\<close>

definition check_sumrule :: "('a::comm_monoid_add, 's) Becs \<Rightarrow> error + 'a pyobj list" where
  "check_sumrule self =
     (let locals = Map.empty(''becs_atomsum'' \<mapsto> Tensor (sum_axis0 (becs self)));
          out = [Text ''Born effective charge neutrality sum-rule:'']
      in case load_name locals ''bec_atomsum'' of
           Inl e \<Rightarrow> Inl e
         | Inr v \<Rightarrow> Inr (out @ [v]))"

text \<open>
  A coordinate that is not negative: what \<^verbatim>\<open>np.abs\<close> returns. A NaN counts, since it
  passes through the minimum.
\<close>

definition nonneg :: "npfloat \<Rightarrow> bool" where
  "nonneg x = (case x of Fin r \<Rightarrow> 0 \<le> r | PInf \<Rightarrow> True | NInf \<Rightarrow> False | NaN \<Rightarrow> True)"

text \<open>
  A coordinate whose inverse the 64-bit integer can hold: a finite number that is zero or
  of magnitude at least \<^verbatim>\<open>2 ** -62\<close>; a row of such coordinates; and what such coordinates
  become once the zeros are replaced and the absolute value is taken.
\<close>

fun in_scale :: "npfloat \<Rightarrow> bool" where
  "in_scale (Fin r) \<longleftrightarrow> r = 0 \<or> 1 / 2 ^ 62 \<le> \<bar>r\<bar>"
| "in_scale x \<longleftrightarrow> False"

definition in_scale_row :: "vec3 \<Rightarrow> bool" where
  "in_scale_row q = (case q of (x, y, z) \<Rightarrow> in_scale x \<and> in_scale y \<and> in_scale z)"

fun scaled :: "npfloat \<Rightarrow> bool" where
  "scaled (Fin r) \<longleftrightarrow> 1 / 2 ^ 62 \<le> r"
| "scaled PInf \<longleftrightarrow> True"
| "scaled x \<longleftrightarrow> False"

text \<open>
  The values of one key are all integers, or all floats; and the condition under which a
  header line continues the last key: the \<^verbatim>\<open>try\<close> block of lines 93 to 96 raises no
  ValueError, that is, the first token reads as a float and every token of the line
  converts under the conversion chosen from the first token.
\<close>

definition all_ints :: "pynum list \<Rightarrow> bool" where
  "all_ints vals = list_all (\<lambda>v. case v of IntV _ \<Rightarrow> True | FloatV _ \<Rightarrow> False) vals"

definition all_floats :: "pynum list \<Rightarrow> bool" where
  "all_floats vals = list_all (\<lambda>v. case v of IntV _ \<Rightarrow> False | FloatV _ \<Rightarrow> True) vals"

definition continues ::
  "(string \<Rightarrow> int option) \<Rightarrow> (string \<Rightarrow> npfloat option) \<Rightarrow> string list \<Rightarrow> bool" where
  "continues pint pfloat tokens =
     (case tokens of
        [] \<Rightarrow> False
      | tok0 # _ \<Rightarrow> pfloat tok0 \<noteq> None \<and> parse_tokens pint pfloat tok0 tokens \<noteq> None)"

section \<open>Mesh inference\<close>

lemma nonneg_np_abs: "nonneg (np_abs x)"
  by (cases x) (simp_all add: nonneg_def)

lemma nonneg_np_minimum: "nonneg x \<Longrightarrow> nonneg y \<Longrightarrow> nonneg (np_minimum x y)"
  by (cases x; cases y) (simp_all add: nonneg_def)

lemma nonneg_fold_minimum:
  "nonneg x \<Longrightarrow> \<forall>y\<in>set xs. nonneg y \<Longrightarrow> nonneg (fold (\<lambda>y m. np_minimum m y) xs x)"
  by (induction xs arbitrary: x) (simp_all add: nonneg_np_minimum)

lemma nonneg_np_min: "\<forall>y\<in>set xs. nonneg y \<Longrightarrow> np_min xs = Inr m \<Longrightarrow> nonneg m"
  by (cases xs) (auto simp: nonneg_fold_minimum)

lemma scaled_np_abs: "in_scale x \<Longrightarrow> scaled (np_abs (zero_to_inf x))"
  by (cases x) (auto simp: zero_to_inf_def)

lemma scaled_np_minimum: "scaled x \<Longrightarrow> scaled y \<Longrightarrow> scaled (np_minimum x y)"
  by (cases x; cases y) (simp_all add: min_def)

lemma scaled_fold_minimum:
  "scaled x \<Longrightarrow> \<forall>y\<in>set xs. scaled y \<Longrightarrow> scaled (fold (\<lambda>y m. np_minimum m y) xs x)"
  by (induction xs arbitrary: x) (simp_all add: scaled_np_minimum)

lemma scaled_np_min: "\<forall>y\<in>set xs. scaled y \<Longrightarrow> np_min xs = Inr m \<Longrightarrow> scaled m"
  by (cases xs) (auto simp: scaled_fold_minimum)

lemma rint_rat_nonneg: "0 \<le> x \<Longrightarrow> 0 \<le> rint_rat x"
  by (auto simp: rint_rat_def Let_def)

lemma rint_rat_le: "x \<le> of_int n \<Longrightarrow> rint_rat x \<le> n"
proof -
  assume le: "x \<le> of_int n"
  then have f: "\<lfloor>x\<rfloor> \<le> n" by (simp add: floor_le_iff)
  show ?thesis
  proof (cases "\<lfloor>x\<rfloor> = n")
    case True
    then have "of_int n \<le> x" by (metis of_int_floor_le)
    with le have "x = of_int n" by simp
    then show ?thesis by (simp add: rint_rat_def)
  next
    case False
    with f have "\<lfloor>x\<rfloor> + 1 \<le> n" by simp
    then show ?thesis by (auto simp: rint_rat_def Let_def)
  qed
qed

lemma axis_one_or_min:
  assumes "nonneg s"
  shows "1 \<le> np_to_int (zero_to_one ((np_rint \<circ> np_recip) (zero_to_one s))) \<or>
         np_to_int (zero_to_one ((np_rint \<circ> np_recip) (zero_to_one s))) = int_min"
proof (cases s)
  case (Fin r)
  with assms have r: "0 \<le> r" by (simp add: nonneg_def)
  show ?thesis
  proof (cases "r = 0")
    case True
    with Fin show ?thesis
      by (simp add: zero_to_one_def rint_rat_def trunc_rat_def int_min_def int_max_def)
  next
    case False
    with r have "0 \<le> 1 / r" by simp
    then have "0 \<le> rint_rat (1 / r)" by (rule rint_rat_nonneg)
    with Fin False show ?thesis
      by (auto simp: zero_to_one_def trunc_rat_def Let_def int_min_def int_max_def)
  qed
next
  case PInf
  then show ?thesis
    by (simp add: zero_to_one_def rint_rat_def trunc_rat_def int_min_def int_max_def)
next
  case NInf
  with assms show ?thesis by (simp add: nonneg_def)
next
  case NaN
  then show ?thesis by (simp add: zero_to_one_def)
qed

lemma axis_at_least_one:
  assumes "scaled s"
  shows "1 \<le> np_to_int (zero_to_one ((np_rint \<circ> np_recip) (zero_to_one s)))"
proof (cases s)
  case (Fin r)
  with assms have r: "1 / 2 ^ 62 \<le> r" by simp
  have p: "(0::rat) < 1 / 2 ^ 62" by simp
  with r have pos: "0 < r" by linarith
  from r pos have "1 / r \<le> 2 ^ 62"
    by (simp add: field_simps)
  then have "1 / r \<le> of_int (2 ^ 62)" by simp
  then have up: "rint_rat (1 / r) \<le> 2 ^ 62" by (rule rint_rat_le)
  from pos have "0 \<le> 1 / r" by simp
  then have lo: "0 \<le> rint_rat (1 / r)" by (rule rint_rat_nonneg)
  define m where "m = (if rint_rat (1 / r) = 0 then 1 else rint_rat (1 / r))"
  from lo up have m: "1 \<le> m" "m \<le> int_max" "int_min \<le> m"
    by (auto simp: m_def int_max_def int_min_def)
  from Fin pos have "zero_to_one ((np_rint \<circ> np_recip) (zero_to_one s)) = Fin (of_int m)"
    by (auto simp: zero_to_one_def m_def)
  with m show ?thesis by (simp add: trunc_rat_def Let_def)
next
  case PInf
  then show ?thesis
    by (simp add: zero_to_one_def rint_rat_def trunc_rat_def int_min_def int_max_def)
next
  case NInf
  with assms show ?thesis by simp
next
  case NaN
  with assms show ?thesis by simp
qed

lemma guessed_ngqpt_Inr:
  assumes "guessed_ngqpt rotate_k qpoints spacegroup = Inr (a, b, c)"
  obtains x y z where
    "np_min (map fst (map (map_vec3 np_abs) (map (map_vec3 zero_to_inf)
        (all_qpoints rotate_k qpoints spacegroup)))) = Inr x"
    "np_min (map (fst \<circ> snd) (map (map_vec3 np_abs) (map (map_vec3 zero_to_inf)
        (all_qpoints rotate_k qpoints spacegroup)))) = Inr y"
    "np_min (map (snd \<circ> snd) (map (map_vec3 np_abs) (map (map_vec3 zero_to_inf)
        (all_qpoints rotate_k qpoints spacegroup)))) = Inr z"
    "a = np_to_int (zero_to_one ((np_rint \<circ> np_recip) (zero_to_one x)))"
    "b = np_to_int (zero_to_one ((np_rint \<circ> np_recip) (zero_to_one y)))"
    "c = np_to_int (zero_to_one ((np_rint \<circ> np_recip) (zero_to_one z)))"
proof -
  define rows where "rows = map (map_vec3 np_abs) (map (map_vec3 zero_to_inf)
        (all_qpoints rotate_k qpoints spacegroup))"
  from assms obtain m where m: "min_axis0 rows = Inr m"
    and r: "to_int_vec3 (map_vec3 zero_to_one (map_vec3 (np_rint \<circ> np_recip)
              (map_vec3 zero_to_one m))) = (a, b, c)"
    by (auto simp: guessed_ngqpt_def guessed_ngqpt_steps_def rows_def Let_def split: sum.splits)
  obtain x y z where xyz: "m = (x, y, z)" by (cases m)
  from m xyz have "np_min (map fst rows) = Inr x" "np_min (map (fst \<circ> snd) rows) = Inr y"
    "np_min (map (snd \<circ> snd) rows) = Inr z"
    by (auto simp: min_axis0_def split: sum.splits)
  moreover from r xyz have "a = np_to_int (zero_to_one ((np_rint \<circ> np_recip) (zero_to_one x)))"
    "b = np_to_int (zero_to_one ((np_rint \<circ> np_recip) (zero_to_one y)))"
    "c = np_to_int (zero_to_one ((np_rint \<circ> np_recip) (zero_to_one z)))"
    by (auto simp: to_int_vec3_def map_vec3_def)
  ultimately show ?thesis using that unfolding rows_def by blast
qed

text \<open>
  Claim C1. With the single q-point (0.25, 0, 0) and a single operation that leaves it as
  it is (the identity rotation), the guessed mesh is (4, 1, 1), and it is reached the way
  the claim says. The two zero coordinates are replaced by an infinity, so the column
  minima are (0.25, inf, inf) and the replacement of a zero minimum by 1 changes nothing;
  the rounded inverses are (4, 0, 0), 4 being the rounded inverse of 0.25; the replacement
  of a rounded zero by 1 then gives (4, 1, 1).
\<close>

theorem guessed_ngqpt_quarter:
  "rotate_k op (Fin (1 / 4), Fin 0, Fin 0) = (Fin (1 / 4), Fin 0, Fin 0) \<Longrightarrow>
   guessed_ngqpt_steps rotate_k [(Fin (1 / 4), Fin 0, Fin 0)] [op] =
     Inr \<lparr>rotated_rows = [(Fin (1 / 4), Fin 0, Fin 0)],
          replaced_rows = [(Fin (1 / 4), PInf, PInf)],
          col_minima = (Fin (1 / 4), PInf, PInf),
          smalls_guarded = (Fin (1 / 4), PInf, PInf),
          rounded_inverse = (Fin 4, Fin 0, Fin 0),
          ngqpt_guarded = (Fin 4, Fin 1, Fin 1),
          mesh_int = (4, 1, 1)\<rparr> \<and>
   guessed_ngqpt rotate_k [(Fin (1 / 4), Fin 0, Fin 0)] [op] = Inr (4, 1, 1)"
  by (simp add: guessed_ngqpt_def guessed_ngqpt_steps_def all_qpoints_def map_vec3_def
      zero_to_inf_def min_axis0_def zero_to_one_def to_int_vec3_def rint_rat_def trunc_rat_def
      int_min_def int_max_def Let_def)

theorem guessed_ngqpt_quarter_witness:
  "rotate_k_spec identity_rot (Fin (1 / 4), Fin 0, Fin 0) = (Fin (1 / 4), Fin 0, Fin 0) \<and>
   guessed_ngqpt_steps rotate_k_spec [(Fin (1 / 4), Fin 0, Fin 0)] [identity_rot] =
     Inr \<lparr>rotated_rows = [(Fin (1 / 4), Fin 0, Fin 0)],
          replaced_rows = [(Fin (1 / 4), PInf, PInf)],
          col_minima = (Fin (1 / 4), PInf, PInf),
          smalls_guarded = (Fin (1 / 4), PInf, PInf),
          rounded_inverse = (Fin 4, Fin 0, Fin 0),
          ngqpt_guarded = (Fin 4, Fin 1, Fin 1),
          mesh_int = (4, 1, 1)\<rparr> \<and>
   guessed_ngqpt rotate_k_spec [(Fin (1 / 4), Fin 0, Fin 0)] [identity_rot] = Inr (4, 1, 1)"
proof -
  have h: "rotate_k_spec identity_rot (Fin (1 / 4), Fin 0, Fin 0) = (Fin (1 / 4), Fin 0, Fin 0)"
    by (simp add: rotate_k_spec_def identity_rot_def dot3_def)
  from guessed_ngqpt_quarter [of rotate_k_spec identity_rot, OF h] h show ?thesis
    by (intro conjI) simp_all
qed

text \<open>
  Claim C2. With an empty list of q-points the mesh inference returns no mesh: the array
  \<^verbatim>\<open>all_qpoints\<close> has no row and the minimum along its columns raises the ValueError of
  NumPy, whatever the operations are. This ValueError is the failure the spec calls
  InvalidInputError.
\<close>

theorem guessed_ngqpt_empty:
  "guessed_ngqpt rotate_k [] spacegroup = Inl ValueError"
  by (simp add: guessed_ngqpt_def guessed_ngqpt_steps_def all_qpoints_def min_axis0_def)

text \<open>
  Claim C10 says that every component of a returned mesh is at least 1. The conversion to
  the 64-bit integer breaks it: the line \<^verbatim>\<open>qpt 1.0E-20 0.5 0.5 1.0\<close> gives a q-point whose
  first inverse, \<^verbatim>\<open>10 ** 20\<close>, is beyond the range of the type, and the mesh returned has the
  smallest 64-bit integer on that axis.
\<close>

theorem guessed_ngqpt_overflow_counterexample:
  "read_qpoints dec_float [''qpt 1.0E-20 0.5 0.5 1.0''] =
     Inr [(Fin (1 / 100000000000000000000), Fin (1 / 2), Fin (1 / 2))] \<and>
   guessed_ngqpt rotate_k_spec [(Fin (1 / 100000000000000000000), Fin (1 / 2), Fin (1 / 2))]
     [identity_rot] = Inr (- 9223372036854775808, 2, 2)"
  by code_simp

text \<open>
  Claim C10, amended. When the list of q-points is not empty and the mesh inference returns
  a mesh, each of its three components is at least 1 or is \<open>int_min\<close>, the integer the
  conversion stores for a NaN, an infinity or a value beyond the range of the type. All
  three components are at least 1 when every coordinate of every rotated q-point is a
  finite number that is zero or of magnitude at least \<^verbatim>\<open>2 ** -62\<close>.
\<close>

theorem guessed_ngqpt_components:
  assumes "qpoints \<noteq> []"
    and "guessed_ngqpt rotate_k qpoints spacegroup = Inr (a, b, c)"
  shows "(1 \<le> a \<or> a = int_min) \<and> (1 \<le> b \<or> b = int_min) \<and> (1 \<le> c \<or> c = int_min) \<and>
     (list_all in_scale_row (all_qpoints rotate_k qpoints spacegroup) \<longrightarrow>
        1 \<le> a \<and> 1 \<le> b \<and> 1 \<le> c)"
proof -
  define rot where "rot = all_qpoints rotate_k qpoints spacegroup"
  define rows where "rows = map (map_vec3 np_abs) (map (map_vec3 zero_to_inf) rot)"
  from guessed_ngqpt_Inr [OF assms(2)] obtain x y z
    where mx: "np_min (map fst rows) = Inr x"
      and my: "np_min (map (fst \<circ> snd) rows) = Inr y"
      and mz: "np_min (map (snd \<circ> snd) rows) = Inr z"
      and a: "a = np_to_int (zero_to_one ((np_rint \<circ> np_recip) (zero_to_one x)))"
      and b: "b = np_to_int (zero_to_one ((np_rint \<circ> np_recip) (zero_to_one y)))"
      and c: "c = np_to_int (zero_to_one ((np_rint \<circ> np_recip) (zero_to_one z)))"
    unfolding rows_def rot_def by blast
  have nn: "\<forall>q\<in>set rows. nonneg (fst q) \<and> nonneg (fst (snd q)) \<and> nonneg (snd (snd q))"
    by (auto simp: rows_def map_vec3_def nonneg_np_abs)
  from nn have "nonneg x" by (intro nonneg_np_min [OF _ mx]) simp
  moreover from nn have "nonneg y" by (intro nonneg_np_min [OF _ my]) simp
  moreover from nn have "nonneg z" by (intro nonneg_np_min [OF _ mz]) simp
  ultimately have first: "(1 \<le> a \<or> a = int_min) \<and> (1 \<le> b \<or> b = int_min) \<and> (1 \<le> c \<or> c = int_min)"
    unfolding a b c by (intro conjI axis_one_or_min)
  have second: "1 \<le> a \<and> 1 \<le> b \<and> 1 \<le> c" if ok: "list_all in_scale_row rot"
  proof -
    from ok have sc: "\<forall>q\<in>set rows. scaled (fst q) \<and> scaled (fst (snd q)) \<and> scaled (snd (snd q))"
      by (auto simp: rows_def map_vec3_def list_all_iff in_scale_row_def scaled_np_abs)
    from sc have "scaled x" by (intro scaled_np_min [OF _ mx]) simp
    moreover from sc have "scaled y" by (intro scaled_np_min [OF _ my]) simp
    moreover from sc have "scaled z" by (intro scaled_np_min [OF _ mz]) simp
    ultimately show ?thesis unfolding a b c by (intro conjI axis_at_least_one)
  qed
  from first second show ?thesis unfolding rot_def by blast
qed

theorem guessed_ngqpt_components_witness:
  "[(Fin (1 / 4), Fin 0, Fin 0), (Fin (1 / 2), Fin (1 / 3), Fin 5)] \<noteq> [] \<and>
   guessed_ngqpt rotate_k_spec [(Fin (1 / 4), Fin 0, Fin 0), (Fin (1 / 2), Fin (1 / 3), Fin 5)]
     [identity_rot, ((0, 1, 0), (1, 0, 0), (0, 0, - 1))] = Inr (4, 4, 1) \<and>
   list_all in_scale_row (all_qpoints rotate_k_spec
     [(Fin (1 / 4), Fin 0, Fin 0), (Fin (1 / 2), Fin (1 / 3), Fin 5)]
     [identity_rot, ((0, 1, 0), (1, 0, 0), (0, 0, - 1))]) \<and>
   (1::int) \<le> 4 \<and> (1::int) \<le> 4 \<and> (1::int) \<le> 1"
proof -
  have h: "guessed_ngqpt rotate_k_spec [(Fin (1 / 4), Fin 0, Fin 0), (Fin (1 / 2), Fin (1 / 3), Fin 5)]
     [identity_rot, ((0, 1, 0), (1, 0, 0), (0, 0, - 1))] = Inr (4, 4, 1)"
    by code_simp
  have n: "[(Fin (1 / 4), Fin 0, Fin 0), (Fin (1 / 2), Fin (1 / 3), Fin 5)] \<noteq> []"
    by simp
  have s: "list_all in_scale_row (all_qpoints rotate_k_spec
     [(Fin (1 / 4), Fin 0, Fin 0), (Fin (1 / 2), Fin (1 / 3), Fin 5)]
     [identity_rot, ((0, 1, 0), (1, 0, 0), (0, 0, - 1))])"
    by code_simp
  from guessed_ngqpt_components [OF n h] s
  have "(1::int) \<le> 4 \<and> (1::int) \<le> 4 \<and> (1::int) \<le> 1"
    by blast
  with h n s show ?thesis by (intro conjI) simp_all
qed

section \<open>Born effective charges\<close>

lemma becs_fill_length:
  "becs_fill order i xs arr = Inr arr' \<Longrightarrow> length arr' = length arr"
  by (induction xs arbitrary: i arr) (auto simp: Let_def split: if_splits)

lemma becs_fill_returns:
  "i + length xs \<le> length arr \<Longrightarrow> \<exists>arr'. becs_fill order i xs arr = Inr arr'"
  by (induction xs arbitrary: i arr) (auto simp: Let_def)

lemma becs_fill_nth:
  "becs_fill order i xs arr = Inr arr' \<Longrightarrow>
   (\<forall>j < length arr. arr' ! j =
      (if i \<le> j \<and> j < i + length xs
       then Some (if order = ''f'' then mat_T (xs ! (j - i)) else xs ! (j - i))
       else arr ! j))"
proof (induction xs arbitrary: i arr)
  case Nil
  then show ?case by auto
next
  case (Cons x xs)
  from Cons.prems have lt: "i < length arr"
    and rec: "becs_fill order (Suc i) xs
                (arr[i := Some (if order = ''f'' then mat_T x else x)]) = Inr arr'"
    by (auto simp: Let_def split: if_splits)
  from Cons.IH [OF rec] show ?case
    by (auto simp: nth_list_update nth_Cons' Suc_diff_le)
qed

text \<open>
  Claim C7. When the number of blocks of \<^verbatim>\<open>becs_arr\<close> differs from the number of atoms
  of the structure, \<^verbatim>\<open>Becs.__init__\<close> raises the AssertionError of its first statement
  and builds no object. This AssertionError is the failure the spec calls
  ShapeMismatchError.
\<close>

theorem Becs_init_length_mismatch:
  "length becs_arr \<noteq> length structure \<Longrightarrow>
   Becs_init becs_arr structure order = Inl AssertionError"
  by (simp add: Becs_init_def)

theorem Becs_init_length_mismatch_witness:
  "length [((1::int, 2, 3), (4, 5, 6), (7, 8, 9))] \<noteq> length [''Si'', ''Si''] \<and>
   Becs_init [((1::int, 2, 3), (4, 5, 6), (7, 8, 9))] [''Si'', ''Si''] ''f'' = Inl AssertionError"
proof -
  have h: "length [((1::int, 2, 3), (4, 5, 6), (7, 8, 9))] \<noteq> length [''Si'', ''Si'']"
    by simp
  from Becs_init_length_mismatch [OF h, of "''f''"] h show ?thesis
    by simp
qed

text \<open>
  Claim C8. When \<^verbatim>\<open>becs_arr\<close> has one block for every atom, \<^verbatim>\<open>Becs.__init__\<close>
  returns an object whose array has a written cell for every atom: with \<^verbatim>\<open>order == "f"\<close>
  the cell of atom \<open>i\<close> is the transpose of the block \<open>i\<close> of the input, with any other
  \<^verbatim>\<open>order\<close> it is the block itself.
\<close>

theorem Becs_init_blocks:
  assumes "length becs_arr = length structure"
  shows "\<exists>b. Becs_init becs_arr structure order = Inr b \<and> Becs_structure b = structure \<and>
     length (becs b) = length becs_arr \<and>
     (\<forall>i < length becs_arr. becs b ! i =
        Some (if order = ''f'' then mat_T (becs_arr ! i) else becs_arr ! i))"
proof -
  from assms obtain arr
    where f: "becs_fill order 0 becs_arr (replicate (length structure) None) = Inr arr"
    using becs_fill_returns [of 0 becs_arr "replicate (length structure) None" order] by auto
  from becs_fill_length [OF f] have l: "length arr = length structure" by simp
  from becs_fill_nth [OF f] assms
  have "\<forall>i < length becs_arr. arr ! i =
          Some (if order = ''f'' then mat_T (becs_arr ! i) else becs_arr ! i)"
    by simp
  with f l assms show ?thesis by (simp add: Becs_init_def)
qed

theorem Becs_init_blocks_witness:
  "length [((1::int, 2, 3), (4, 5, 6), (7, 8, 9))] = length [''Si''] \<and>
   (\<exists>b. Becs_init [((1::int, 2, 3), (4, 5, 6), (7, 8, 9))] [''Si''] ''f'' = Inr b \<and>
        becs b ! 0 = Some ((1, 4, 7), (2, 5, 8), (3, 6, 9)))"
proof -
  have h: "length [((1::int, 2, 3), (4, 5, 6), (7, 8, 9))] = length [''Si'']"
    by simp
  from Becs_init_blocks [OF h, of "''f''"] h show ?thesis
    by (auto simp: mat_T_def)
qed

text \<open>
  Claim C9 says that \<^verbatim>\<open>check_sumrule\<close> never raises. In the code it always does: the
  sum is bound to \<^verbatim>\<open>becs_atomsum\<close> and the last statement prints \<^verbatim>\<open>bec_atomsum\<close>, a
  name bound nowhere, so every call ends in NameError after the first line is printed.
\<close>

theorem check_sumrule_raises:
  "check_sumrule self = Inl NameError"
  by (simp add: check_sumrule_def load_name_def module_names_def)

section \<open>Strings\<close>

lemma startswith_prefix: "startswith s p \<longleftrightarrow> prefix p s"
  by (metis append_eq_conv_conj prefix_def startswith_def append_take_drop_id)

lemma split_aux_cur:
  "cur \<noteq> [] \<Longrightarrow>
   split_aux cur s = (cur @ takeWhile (Not \<circ> isspace) s) # split_aux [] (dropWhile (Not \<circ> isspace) s)"
  by (induction s arbitrary: cur) auto

lemma split_aux_skip: "split_aux [] s = split_aux [] (dropWhile isspace s)"
  by (induction s) auto

lemma split_first:
  "split l = (case dropWhile isspace l of
                [] \<Rightarrow> []
              | c # cs \<Rightarrow> takeWhile (Not \<circ> isspace) (c # cs) # split (dropWhile (Not \<circ> isspace) cs))"
proof -
  have sk: "split l = split_aux [] (dropWhile isspace l)"
    unfolding split_def by (rule split_aux_skip)
  show ?thesis
  proof (cases "dropWhile isspace l")
    case Nil
    from sk have "split l = []" unfolding Nil by simp
    then show ?thesis unfolding Nil by simp
  next
    case (Cons c cs)
    then have nc: "\<not> isspace c" by (metis hd_dropWhile list.sel(1) list.simps(3))
    from sk have "split l = split_aux [] (c # cs)" unfolding Cons .
    also have "\<dots> = split_aux [c] cs" using nc by simp
    also have "\<dots> = ([c] @ takeWhile (Not \<circ> isspace) cs) #
                    split_aux [] (dropWhile (Not \<circ> isspace) cs)"
      by (rule split_aux_cur) simp
    finally have "split l = takeWhile (Not \<circ> isspace) (c # cs) #
                    split (dropWhile (Not \<circ> isspace) cs)"
      using nc by (simp add: split_def)
    then show ?thesis unfolding Cons by simp
  qed
qed

lemma strip_decomp:
  "\<exists>b. dropWhile isspace l = strip l @ b \<and> (\<forall>x\<in>set b. isspace x)"
proof -
  define m where "m = dropWhile isspace l"
  have "rev m = takeWhile isspace (rev m) @ dropWhile isspace (rev m)" by simp
  then have "m = rev (dropWhile isspace (rev m)) @ rev (takeWhile isspace (rev m))"
    by (metis rev_append rev_rev_ident)
  moreover have "\<forall>x\<in>set (rev (takeWhile isspace (rev m))). isspace x"
    by (auto dest: set_takeWhileD)
  ultimately show ?thesis unfolding strip_def m_def by blast
qed

lemma takeWhile_strip:
  "takeWhile (Not \<circ> isspace) (strip l) = takeWhile (Not \<circ> isspace) (dropWhile isspace l)"
proof -
  obtain b where d: "dropWhile isspace l = strip l @ b" and b: "\<forall>x\<in>set b. isspace x"
    using strip_decomp by blast
  have tb: "takeWhile (Not \<circ> isspace) b = []" using b by (cases b) auto
  show ?thesis
  proof (cases "\<forall>x\<in>set (strip l). (Not \<circ> isspace) x")
    case True
    then show ?thesis using d tb by (simp add: takeWhile_append2)
  next
    case False
    then obtain x where "x \<in> set (strip l)" "\<not> (Not \<circ> isspace) x" by blast
    then show ?thesis using d by (simp add: takeWhile_append1)
  qed
qed

lemma startswith_takeWhile:
  assumes "\<forall>x\<in>set p. \<not> isspace x"
  shows "startswith s p \<longleftrightarrow> startswith (takeWhile (Not \<circ> isspace) s) p"
proof
  assume "startswith s p"
  then obtain r where "s = p @ r" by (auto simp: startswith_prefix prefix_def)
  with assms show "startswith (takeWhile (Not \<circ> isspace) s) p"
    by (simp add: startswith_prefix takeWhile_append2)
next
  assume "startswith (takeWhile (Not \<circ> isspace) s) p"
  then have "prefix p (takeWhile (Not \<circ> isspace) s)" by (simp add: startswith_prefix)
  moreover have "prefix (takeWhile (Not \<circ> isspace) s) s"
    by (metis prefixI takeWhile_dropWhile_id)
  ultimately show "startswith s p" by (auto simp: startswith_prefix)
qed

lemma qpt_nospace: "\<forall>x\<in>set ''qpt''. \<not> isspace x"
  by (simp add: isspace_def)

lemma candidate_first_token:
  "startswith (strip l) ''qpt'' \<longleftrightarrow> (\<exists>t ts. split l = t # ts \<and> startswith t ''qpt'')"
proof -
  have "startswith (strip l) ''qpt'' \<longleftrightarrow> startswith (takeWhile (Not \<circ> isspace) (dropWhile isspace l)) ''qpt''"
    using startswith_takeWhile [OF qpt_nospace, of "strip l"] by (simp add: takeWhile_strip)
  also have "\<dots> \<longleftrightarrow> (\<exists>t ts. split l = t # ts \<and> startswith t ''qpt'')"
  proof (cases "dropWhile isspace l")
    case Nil
    have "split l = []" by (subst split_first) (simp add: Nil)
    then show ?thesis unfolding Nil by (simp add: startswith_def)
  next
    case (Cons c cs)
    have "split l = takeWhile (Not \<circ> isspace) (c # cs) #
                      split (dropWhile (Not \<circ> isspace) cs)"
      by (subst split_first) (simp add: Cons)
    then show ?thesis unfolding Cons by simp
  qed
  finally show ?thesis .
qed

section \<open>The q-point extractor\<close>

lemma read_qpoints_scan_first_seen:
  "read_qpoints_scan lines =
     (map (replace ''qpt'' '''') (first_seen (filter (\<lambda>l. startswith l ''qpt'') (map strip lines))),
      set (filter (\<lambda>l. startswith l ''qpt'') (map strip lines)))"
proof (induction lines rule: rev_induct)
  case Nil
  then show ?case by (simp add: read_qpoints_scan_def first_seen_def)
next
  case (snoc l ls)
  then show ?case
    by (auto simp: read_qpoints_scan_def first_seen_def Let_def)
qed

lemma read_qpoints_loop_nth:
  "read_qpoints_loop pfloat toks = Inr qws \<Longrightarrow>
   length qws = length toks \<and> (\<forall>i < length toks. parse_qpt pfloat (toks ! i) = Inr (qws ! i))"
proof (induction toks arbitrary: qws)
  case Nil
  then show ?case by simp
next
  case (Cons t toks)
  then show ?case by (auto simp: nth_Cons' split: sum.splits)
qed

text \<open>
  Claim C3. When \<^verbatim>\<open>_read_qpoints\<close> returns, the q-points are as many as there are
  distinct trimmed lines starting with the marker: two lines with the same trimmed text
  give one q-point, two lines whose trimmed texts differ, be it in one character of a
  number that has the same value, give two. The q-point at place \<open>i\<close> is read from the
  \<open>i\<close>-th of these lines in the order of first occurrence, with the marker removed, and
  the weight is dropped.
\<close>

theorem read_qpoints_dedup:
  assumes "read_qpoints pfloat lines = Inr qs"
  shows "length qs = card {l \<in> strip ` set lines. startswith l ''qpt''} \<and>
     (\<forall>i < length qs. \<exists>w.
        parse_qpt pfloat (replace ''qpt'' ''''
          (first_seen (filter (\<lambda>l. startswith l ''qpt'') (map strip lines)) ! i)) = Inr (qs ! i, w))"
proof -
  define cands where "cands = filter (\<lambda>l. startswith l ''qpt'') (map strip lines)"
  from assms obtain qws where l: "read_qpoints_loop pfloat (map (replace ''qpt'' '''') (first_seen cands)) = Inr qws"
    and qs: "qs = map fst qws"
    by (auto simp: read_qpoints_def read_qpoints_scan_first_seen cands_def split: sum.splits)
  from read_qpoints_loop_nth [OF l] have len: "length qws = length (first_seen cands)"
    and nth: "\<forall>i < length (first_seen cands). parse_qpt pfloat (replace ''qpt'' '''' (first_seen cands ! i)) = Inr (qws ! i)"
    by auto
  have "length (first_seen cands) = card (set cands)"
    by (simp add: first_seen_def length_remdups_card_conv)
  moreover have "set cands = {l \<in> strip ` set lines. startswith l ''qpt''}"
    by (auto simp: cands_def)
  ultimately have "length qs = card {l \<in> strip ` set lines. startswith l ''qpt''}"
    using len qs by simp
  moreover have "\<forall>i < length qs. \<exists>w. parse_qpt pfloat (replace ''qpt'' '''' (first_seen cands ! i)) = Inr (qs ! i, w)"
    using nth len qs by (auto simp: cands_def) (metis prod.collapse)
  ultimately show ?thesis by (simp add: cands_def)
qed

theorem read_qpoints_dedup_witness:
  "read_qpoints dec_float
     [''qpt  2.50000000E-01  0.00000000E+00  0.00000000E+00   1.0'',
      '' 2nd derivatives (non-stat.)  - # elements :      36'',
      ''  qpt  2.50000000E-01  0.00000000E+00  0.00000000E+00   1.0  '',
      ''qpt  2.500000000E-01  0.00000000E+00  0.00000000E+00   1.0'']
     = Inr [(Fin (1 / 4), Fin 0, Fin 0), (Fin (1 / 4), Fin 0, Fin 0)] \<and>
   length [(Fin (1 / 4), Fin 0, Fin 0), (Fin (1 / 4), Fin 0, Fin 0)] =
     card {l \<in> strip ` set
     [''qpt  2.50000000E-01  0.00000000E+00  0.00000000E+00   1.0'',
      '' 2nd derivatives (non-stat.)  - # elements :      36'',
      ''  qpt  2.50000000E-01  0.00000000E+00  0.00000000E+00   1.0  '',
      ''qpt  2.500000000E-01  0.00000000E+00  0.00000000E+00   1.0''].
       startswith l ''qpt''}"
proof -
  have h: "read_qpoints dec_float
     [''qpt  2.50000000E-01  0.00000000E+00  0.00000000E+00   1.0'',
      '' 2nd derivatives (non-stat.)  - # elements :      36'',
      ''  qpt  2.50000000E-01  0.00000000E+00  0.00000000E+00   1.0  '',
      ''qpt  2.500000000E-01  0.00000000E+00  0.00000000E+00   1.0'']
     = Inr [(Fin (1 / 4), Fin 0, Fin 0), (Fin (1 / 4), Fin 0, Fin 0)]"
    by code_simp
  from read_qpoints_dedup [OF h] h show ?thesis
    by blast
qed

text \<open>
  Claim C4 says that a line is a candidate record exactly when its first token is the
  marker. The code tests \<^verbatim>\<open>line.startswith("qpt")\<close> on the trimmed line: the line
  \<^verbatim>\<open>qptfoo 1 2 3 4\<close>, whose first token is \<^verbatim>\<open>qptfoo\<close>, is taken as a record.
\<close>

theorem read_qpoints_scan_marker_counterexample:
  "fst (read_qpoints_scan [''qptfoo 1 2 3 4'']) = [''foo 1 2 3 4''] \<and>
   split (strip ''qptfoo 1 2 3 4'') = [''qptfoo'', ''1'', ''2'', ''3'', ''4''] \<and>
   hd (split (strip ''qptfoo 1 2 3 4'')) \<noteq> ''qpt''"
  by code_simp

text \<open>
  Claim C4, amended. The records taken from a file are the trimmed lines whose first
  whitespace-separated token begins with the marker \<^verbatim>\<open>qpt\<close>: the token may continue
  after the marker.
\<close>

theorem read_qpoints_scan_candidates:
  "snd (read_qpoints_scan lines) =
     {strip l |l. l \<in> set lines \<and> (\<exists>t ts. split l = t # ts \<and> startswith t ''qpt'')}"
  by (auto simp: read_qpoints_scan_first_seen candidate_first_token)

section \<open>The header parser\<close>

lemma contains_sublist: "contains sub s \<longleftrightarrow> sublist sub s"
  by (induction s) (auto simp: startswith_prefix sublist_Cons_right)

lemma sublist_strip: "sublist (strip l) l"
proof -
  define m where "m = dropWhile isspace l"
  have "rev m = takeWhile isspace (rev m) @ dropWhile isspace (rev m)" by simp
  then have "m = rev (dropWhile isspace (rev m)) @ rev (takeWhile isspace (rev m))"
    by (metis rev_append rev_rev_ident)
  then have "m = strip l @ rev (takeWhile isspace (rev m))"
    by (simp add: strip_def m_def)
  moreover have "l = takeWhile isspace l @ m" by (simp add: m_def)
  ultimately have "l = takeWhile isspace l @ strip l @ rev (takeWhile isspace (rev m))"
    by simp
  then show ?thesis unfolding sublist_def by blast
qed

lemma contains_strip: "contains sub (strip l) \<Longrightarrow> contains sub l"
  using sublist_strip [of l] by (auto simp: contains_sublist intro: sublist_order.order_trans)

lemma those_map_option:
  "those (map (\<lambda>x. map_option f (g x)) xs) = Some vals \<Longrightarrow>
   \<exists>ys. vals = map f ys \<and> length ys = length xs"
proof (induction xs arbitrary: vals)
  case Nil
  then show ?case by simp
next
  case (Cons x xs)
  from Cons.prems obtain y vs where gy: "g x = Some y"
    and vs: "those (map (\<lambda>x. map_option f (g x)) xs) = Some vs" and v: "vals = f y # vs"
    by (auto split: option.splits)
  from Cons.IH [OF vs] obtain ys where "vs = map f ys" "length ys = length xs" by blast
  with v have "vals = map f (y # ys) \<and> length (y # ys) = length (x # xs)" by simp
  then show ?case by blast
qed

lemma parse_tokens_types:
  assumes "parse_tokens pint pfloat tok0 toks = Some vals"
  shows "length vals = length toks \<and>
     (if CHR ''.'' \<in> set tok0 then \<exists>xs. vals = map FloatV xs else \<exists>ns. vals = map IntV ns)"
proof (cases "CHR ''.'' \<in> set tok0")
  case True
  with assms have "those (map (\<lambda>x. map_option FloatV (pfloat x)) toks) = Some vals"
    by (simp add: parse_tokens_def comp_def)
  from those_map_option [OF this] True show ?thesis by auto
next
  case False
  with assms have "those (map (\<lambda>x. map_option IntV (pint x)) toks) = Some vals"
    by (simp add: parse_tokens_def comp_def)
  from those_map_option [OF this] False show ?thesis by auto
qed

lemma new_key_types:
  assumes "new_key pint pfloat keyvals tokens = Inr keyvals'"
  shows "\<exists>key toks vals. tokens = key # toks \<and> toks \<noteq> [] \<and>
     keyvals' = keyvals @ [(key, vals)] \<and> parse_tokens pint pfloat (hd toks) toks = Some vals"
proof (cases tokens)
  case Nil
  with assms show ?thesis by (simp add: new_key_def)
next
  case (Cons key toks)
  show ?thesis
  proof (cases toks)
    case Nil
    with assms Cons show ?thesis by (simp add: new_key_def)
  next
    case c2: (Cons tok0 more)
    show ?thesis
    proof (cases "parse_tokens pint pfloat tok0 toks")
      case None
      with assms Cons c2 show ?thesis by (simp add: new_key_def)
    next
      case (Some vals)
      with assms Cons c2 have "keyvals' = keyvals @ [(key, vals)]" by (simp add: new_key_def)
      with Cons c2 Some show ?thesis by simp
    qed
  qed
qed

lemma parse_tokens_kind:
  assumes "parse_tokens pint pfloat tok0 toks = Some vals"
  shows "length vals = length toks \<and>
     (if CHR ''.'' \<in> set tok0 then all_floats vals else all_ints vals)"
  using parse_tokens_types [OF assms]
  by (auto simp: all_floats_def all_ints_def list_all_iff split: if_splits)

lemma header_line_continues:
  assumes "header_line pint pfloat keyvals line = Inr keyvals'"
    and "tokens = split (replace ''D-'' ''E-'' (replace ''D+'' ''E+'' line))"
  shows "if continues pint pfloat tokens
     then keyvals \<noteq> [] \<and>
       (\<exists>vals. parse_tokens pint pfloat (hd tokens) tokens = Some vals \<and>
          keyvals' = butlast keyvals @ [(fst (last keyvals), snd (last keyvals) @ vals)])
     else new_key pint pfloat keyvals tokens = Inr keyvals'"
proof -
  from assms(1) have h: "(case tokens of
           [] \<Rightarrow> Inl IndexError
         | tok0 # _ \<Rightarrow>
             (case pfloat tok0 of
                None \<Rightarrow> new_key pint pfloat keyvals tokens
              | Some _ \<Rightarrow>
                  if keyvals = [] then Inl IndexError
                  else (case parse_tokens pint pfloat tok0 tokens of
                          None \<Rightarrow> new_key pint pfloat keyvals tokens
                        | Some vals \<Rightarrow>
                            Inr (butlast keyvals @
                                 [(fst (last keyvals), snd (last keyvals) @ vals)])))) = Inr keyvals'"
    unfolding assms(2) header_line_def Let_def .
  show ?thesis
  proof (cases tokens)
    case Nil
    with h show ?thesis by simp
  next
    case (Cons tok0 more)
    show ?thesis
    proof (cases "pfloat tok0")
      case None
      with h Cons show ?thesis by (simp add: continues_def)
    next
      case (Some x)
      show ?thesis
      proof (cases "parse_tokens pint pfloat tok0 tokens")
        case None
        with h Cons Some show ?thesis
          by (cases "keyvals = []") (simp_all add: continues_def)
      next
        case sv: (Some vals)
        with h Cons Some show ?thesis
          by (cases "keyvals = []") (auto simp: continues_def)
      qed
    qed
  qed
qed

text \<open>
  Claim C5 says that the values of a key are integers when no token of the key has a
  decimal point and are all floats as soon as one token has one. The code chooses the
  conversion on every line anew, from the first number of the line: the key \<^verbatim>\<open>foo\<close>
  below, followed by a line of numbers with a decimal point, holds two integers and two
  floats.
\<close>

theorem header_loop_mixed_counterexample:
  "header_loop dec_int dec_float 0
     [''**** DERIVATIVE DATABASE ****'', ''+DDB, Version number    100401'', '''',
      '' Computed on a grid'', ''usepaw 0'', ''natom 2'', ''ixc 7'',
      ''foo 1 2'', ''  1.5 2.5D+00''] ([], None)
   = Inr ([(''ixc'', [IntV 7]),
           (''foo'', [IntV 1, IntV 2, FloatV (Fin (3 / 2)), FloatV (Fin (5 / 2))])],
          Some 100401)"
  by code_simp

text \<open>
  Claim C5, amended. A header line read without error adds its numbers to \<^verbatim>\<open>keyvals\<close>
  under one conversion, chosen on that line; its tokens are those of the line once
  \<^verbatim>\<open>D+\<close> and \<^verbatim>\<open>D-\<close> are rewritten. When the line continues the last key (its
  first token reads as a float and every token converts under the conversion chosen from
  that first token), all its tokens are added to the last key: as floats when the first
  token contains a decimal point, as integers when it does not. In every other case the
  first token is a new key and the tokens after it are its values: as floats when the
  first of them contains a decimal point, as integers when it does not. The numbers a key
  got from its other lines are left as they were.
\<close>

theorem header_line_types:
  assumes "header_line pint pfloat keyvals line = Inr keyvals'"
    and "tokens = split (replace ''D-'' ''E-'' (replace ''D+'' ''E+'' line))"
  shows "if continues pint pfloat tokens
     then keyvals \<noteq> [] \<and>
       (\<exists>vals. keyvals' = butlast keyvals @ [(fst (last keyvals), snd (last keyvals) @ vals)] \<and>
          parse_tokens pint pfloat (hd tokens) tokens = Some vals \<and>
          length vals = length tokens \<and>
          (if CHR ''.'' \<in> set (hd tokens) then all_floats vals else all_ints vals))
     else
       (\<exists>key toks vals. tokens = key # toks \<and> toks \<noteq> [] \<and>
          keyvals' = keyvals @ [(key, vals)] \<and>
          parse_tokens pint pfloat (hd toks) toks = Some vals \<and>
          length vals = length toks \<and>
          (if CHR ''.'' \<in> set (hd toks) then all_floats vals else all_ints vals))"
proof (cases "continues pint pfloat tokens")
  case True
  with header_line_continues [OF assms] obtain vals where ne: "keyvals \<noteq> []"
    and p: "parse_tokens pint pfloat (hd tokens) tokens = Some vals"
    and kv: "keyvals' = butlast keyvals @ [(fst (last keyvals), snd (last keyvals) @ vals)]"
    by auto
  from parse_tokens_kind [OF p] ne p kv True show ?thesis by auto
next
  case False
  with header_line_continues [OF assms] have "new_key pint pfloat keyvals tokens = Inr keyvals'"
    by simp
  from new_key_types [OF this] obtain key toks vals where t: "tokens = key # toks" "toks \<noteq> []"
    and kv: "keyvals' = keyvals @ [(key, vals)]"
    and p: "parse_tokens pint pfloat (hd toks) toks = Some vals"
    by blast
  from parse_tokens_kind [OF p] t kv p False show ?thesis by auto
qed

theorem header_line_types_witness:
  "header_line dec_int dec_float [(''foo'', [IntV 1, IntV 2])] ''1.5 2.5D+00''
     = Inr [(''foo'', [IntV 1, IntV 2, FloatV (Fin (3 / 2)), FloatV (Fin (5 / 2))])] \<and>
   [''1.5'', ''2.5E+00''] = split (replace ''D-'' ''E-'' (replace ''D+'' ''E+'' ''1.5 2.5D+00'')) \<and>
   continues dec_int dec_float [''1.5'', ''2.5E+00''] \<and>
   CHR ''.'' \<in> set (hd [''1.5'', ''2.5E+00'']) \<and>
   all_floats [FloatV (Fin (3 / 2)), FloatV (Fin (5 / 2))]"
proof -
  have h: "header_line dec_int dec_float [(''foo'', [IntV 1, IntV 2])] ''1.5 2.5D+00''
     = Inr [(''foo'', [IntV 1, IntV 2, FloatV (Fin (3 / 2)), FloatV (Fin (5 / 2))])]"
    by code_simp
  have t: "[''1.5'', ''2.5E+00''] =
     split (replace ''D-'' ''E-'' (replace ''D+'' ''E+'' ''1.5 2.5D+00''))"
    by code_simp
  have c: "continues dec_int dec_float [''1.5'', ''2.5E+00'']"
    by code_simp
  have d: "CHR ''.'' \<in> set (hd [''1.5'', ''2.5E+00''])"
    by simp
  from header_line_types [OF h t] obtain vals
    where kv: "[(''foo'', [IntV 1, IntV 2, FloatV (Fin (3 / 2)), FloatV (Fin (5 / 2))])] =
        butlast [(''foo'', [IntV 1, IntV 2])] @
        [(fst (last [(''foo'', [IntV 1, IntV 2])]),
          snd (last [(''foo'', [IntV 1, IntV 2])]) @ vals)]"
      and k: "if CHR ''.'' \<in> set (hd [''1.5'', ''2.5E+00''])
              then all_floats vals else all_ints vals"
    unfolding if_P [OF c] by blast
  from kv have "vals = [FloatV (Fin (3 / 2)), FloatV (Fin (5 / 2))]"
    by simp
  with k d have "all_floats [FloatV (Fin (3 / 2)), FloatV (Fin (5 / 2))]"
    by (simp only: if_True)
  with h t c d show ?thesis by (intro conjI)
qed

lemma read_version_errors: "read_version pint line = Inl e \<Longrightarrow> e = IndexError \<or> e = ValueError"
  by (auto simp: read_version_def split: list.splits option.splits)

lemma new_key_errors: "new_key pint pfloat keyvals tokens = Inl e \<Longrightarrow> e = IndexError \<or> e = ValueError"
  by (auto simp: new_key_def split: list.splits option.splits)

lemma header_line_errors: "header_line pint pfloat keyvals line = Inl e \<Longrightarrow> e = IndexError \<or> e = ValueError"
  by (auto simp: header_line_def Let_def split: list.splits option.splits if_splits dest: new_key_errors)

lemma map_sum_Some_Inl: "map_sum id Some r = Inl e \<longleftrightarrow> r = Inl e"
  by (cases r) simp_all

lemma map_sum_Some_Inr: "map_sum id Some r = Inr v \<longleftrightarrow> (\<exists>w. r = Inr w \<and> v = Some w)"
  by (cases r) auto

lemma header_loop_errors:
  "header_loop pint pfloat i lines st = Inl e \<Longrightarrow> e = IndexError \<or> e = ValueError"
proof (induction lines arbitrary: i st)
  case Nil
  then show ?case by simp
next
  case (Cons raw rest)
  obtain keyvals version where st: "st = (keyvals, version)" by (cases st)
  show ?case
  proof (cases "strip raw = []")
    case True
    with Cons.prems st show ?thesis by (auto dest: Cons.IH)
  next
    case False
    show ?thesis
    proof (cases "contains ''Version'' (strip raw)")
      case True
      with Cons.prems st False show ?thesis
        by (auto simp: Let_def map_sum_Some_Inl split: if_splits sum.splits
            dest: Cons.IH read_version_errors header_line_errors)
    next
      case nv: False
      with Cons.prems st False show ?thesis
        by (auto simp: Let_def split: if_splits sum.splits
            dest: Cons.IH header_line_errors)
    qed
  qed
qed

lemma header_loop_no_version:
  "\<forall>l\<in>set lines. \<not> contains ''Version'' (strip l) \<Longrightarrow>
   header_loop pint pfloat i lines (keyvals, None) = Inr (keyvals', v) \<Longrightarrow> v = None"
proof (induction lines arbitrary: i keyvals)
  case Nil
  then show ?case by simp
next
  case (Cons raw rest)
  from Cons.prems(1) have nv: "\<not> contains ''Version'' (strip raw)"
    and rest: "\<forall>l\<in>set rest. \<not> contains ''Version'' (strip l)"
    by simp_all
  show ?case
  proof (cases "strip raw = []")
    case True
    with Cons.prems(2) have "header_loop pint pfloat (Suc i) rest (keyvals, None) = Inr (keyvals', v)"
      by simp
    from Cons.IH [OF rest this] show ?thesis .
  next
    case False
    with Cons.prems(2) nv show ?thesis
      by (auto simp: Let_def split: if_splits sum.splits dest: Cons.IH [OF rest])
  qed
qed

text \<open>
  Claim C6. When no line of the file contains \<^verbatim>\<open>Version\<close>, \<^verbatim>\<open>_parse_header\<close>
  returns no header. The local variable \<^verbatim>\<open>version\<close> is never bound and reading it
  after the loop raises UnboundLocalError, unless a malformed line has raised IndexError
  or ValueError in the loop before. These are the failures the spec calls ParseError.
\<close>

theorem parse_header_no_version:
  assumes "\<forall>l\<in>set lines. \<not> contains ''Version'' l"
  shows "parse_header pint pfloat lines = Inl UnboundLocalError \<or>
         parse_header pint pfloat lines = Inl IndexError \<or>
         parse_header pint pfloat lines = Inl ValueError"
proof (cases "header_loop pint pfloat 0 lines ([], None)")
  case (Inl e)
  with header_loop_errors [OF Inl] show ?thesis by (auto simp: parse_header_def)
next
  case (Inr st)
  obtain keyvals v where st: "st = (keyvals, v)" by (cases st)
  from assms have "\<forall>l\<in>set lines. \<not> contains ''Version'' (strip l)"
    by (auto dest: contains_strip)
  from header_loop_no_version [OF this] Inr st have "v = None" by simp
  with Inr st show ?thesis by (simp add: parse_header_def)
qed

theorem parse_header_no_version_witness:
  "parse_header dec_int dec_float
      [''**** DERIVATIVE DATABASE ****'', ''+DDB, number    100401'', '''',
       '' Computed on a grid'', ''usepaw 0'', ''natom 2'', ''ixc 7'', ''ecut 1.0D+01''] = Inl UnboundLocalError \<or>
   parse_header dec_int dec_float
      [''**** DERIVATIVE DATABASE ****'', ''+DDB, number    100401'', '''',
       '' Computed on a grid'', ''usepaw 0'', ''natom 2'', ''ixc 7'', ''ecut 1.0D+01''] = Inl IndexError \<or>
   parse_header dec_int dec_float
      [''**** DERIVATIVE DATABASE ****'', ''+DDB, number    100401'', '''',
       '' Computed on a grid'', ''usepaw 0'', ''natom 2'', ''ixc 7'', ''ecut 1.0D+01''] = Inl ValueError"
proof -
  have h: "\<forall>l\<in>set [''**** DERIVATIVE DATABASE ****'', ''+DDB, number    100401'', '''',
       '' Computed on a grid'', ''usepaw 0'', ''natom 2'', ''ixc 7'', ''ecut 1.0D+01''].
      \<not> contains ''Version'' l"
    by code_simp
  from parse_header_no_version [OF h] show ?thesis .
qed

end
